theory Spec2Isabelle
  imports Main "HOL-Library.Char_ord" "HOL-Library.List_Lexorder"
begin

section \<open>The build script \<open>build.go\<close> of peg\<close>

text \<open>
  \<open>build.go\<close> is a small make-like driver. Every build target is a Go function
  \<open>func() bool\<close> that asks \<open>done\<close> whether its output is up to date, and runs external
  processes when it is not. The functions act on the file system, on the working directory
  of the process, on the global map \<open>processed\<close> and on standard output, and they \<open>panic\<close>
  on every error. The model threads one record, \<open>world\<close>, through every function and
  returns either a value with the new world or the panic with the world it left behind.
\<close>

subsection \<open>The operating system, as far as the script uses it\<close>

text \<open>
  A resolved path is the list of directory names from the root \<open>/\<close> down to the entry.
  A file system is an association list from resolved paths to nodes; a regular file has a
  modification time and a content, a directory a modification time. Times are natural
  numbers (ticks). Symbolic links and permissions are not modelled, and the modification
  time of a directory is not maintained when entries come and go.
\<close>

type_synonym path = "string list"

datatype node = File nat string | Dir nat

fun ModTime :: "node \<Rightarrow> nat" where
  "ModTime (File t c) = t"
| "ModTime (Dir t) = t"

fun IsDir :: "node \<Rightarrow> bool" where
  "IsDir (File t c) = False"
| "IsDir (Dir t) = True"

type_synonym filesys = "(path \<times> node) list"

text \<open>A child process as the operating system starts it: directory, program, arguments, input.\<close>

datatype invocation = Invocation (inv_dir: path) (inv_name: string) (inv_args: "string list")
  (inv_stdin: "string option")

text \<open>
  What a child process did: whether \<open>exec.Cmd\<close> reported no error (the process started and
  exited with status 0, and its input was fed), its standard output, its combined output,
  and the file system and the clock it left. The programs themselves (\<open>go\<close>, the generated
  \<open>peg\<close> binaries) are not part of the script: their behaviour is a parameter of the model.
\<close>

datatype outcome = Outcome (oc_ok: bool) (oc_stdout: string) (oc_combined: string)
  (oc_fs: filesys) (oc_clock: nat)

type_synonym exec = "invocation \<Rightarrow> filesys \<Rightarrow> nat \<Rightarrow> outcome"

record world =
  cwd :: path
  fs :: filesys
  clock :: nat
  processed :: "string \<rightharpoonup> bool"
  stdout :: "string list"
  procs :: "(invocation \<times> bool) list"

text \<open>
  \<open>processed\<close> is the global map of the script, \<open>stdout\<close> the chunks written by
  \<open>fmt.Print\<close>/\<open>fmt.Printf\<close> (one per call, oldest first), \<open>procs\<close> the child processes
  run so far (oldest first), each with whether \<open>exec.Cmd\<close> reported no error for it.
\<close>

datatype error =
    StatError string
  | GetwdError
  | ChdirError string
  | ReadFileError string
  | ExecError invocation
  | WriteFileError string
  | ReadDirError

datatype 'a result = Ok 'a world | Panic error world

type_synonym 'a prog = "world \<Rightarrow> 'a result"

definition return :: "'a \<Rightarrow> 'a prog" where
  "return a w = Ok a w"

definition bind :: "'a prog \<Rightarrow> ('a \<Rightarrow> 'b prog) \<Rightarrow> 'b prog" where
  "bind m f w = (case m w of Ok a w' \<Rightarrow> f a w' | Panic e w' \<Rightarrow> Panic e w')"

text \<open>
  \<open>deferred d body\<close> is Go's \<open>defer d(); body\<close>: the deferred call runs when the
  body returns and also when it panics; a panic of the deferred call replaces the pending one.
\<close>

definition deferred :: "'b prog \<Rightarrow> 'a prog \<Rightarrow> 'a prog" where
  "deferred d body w =
     (case body w of
        Ok a w1 \<Rightarrow> (case d w1 of Ok x w2 \<Rightarrow> Ok a w2 | Panic e w2 \<Rightarrow> Panic e w2)
      | Panic e w1 \<Rightarrow> (case d w1 of Ok x w2 \<Rightarrow> Panic e w2 | Panic e' w2 \<Rightarrow> Panic e' w2))"

definition print :: "string \<Rightarrow> world \<Rightarrow> world" where
  "print s w = w\<lparr>stdout := stdout w @ [s]\<rparr>"

subsubsection \<open>Paths\<close>

definition Separator :: char where
  "Separator = CHR ''/''"

definition FromSlash :: "string \<Rightarrow> string" where
  "FromSlash p = (if Separator = CHR ''/'' then p
                  else map (\<lambda>c. if c = CHR ''/'' then Separator else c) p)"

fun split_path :: "string \<Rightarrow> string list" where
  "split_path [] = [[]]"
| "split_path (c # s) =
     (if c = CHR ''/'' then [] # split_path s
      else (case split_path s of [] \<Rightarrow> [[c]] | x # xs \<Rightarrow> (c # x) # xs))"

fun walk :: "path \<Rightarrow> string list \<Rightarrow> path" where
  "walk cur [] = cur"
| "walk cur (c # cs) =
     (if c = [] \<or> c = ''.'' then walk cur cs
      else if c = ''..'' then walk (butlast cur) cs
      else walk (cur @ [c]) cs)"

text \<open>The empty path names nothing (\<open>ENOENT\<close>); a path starting with \<open>/\<close> is absolute.\<close>

definition resolve :: "path \<Rightarrow> string \<Rightarrow> path option" where
  "resolve dir p =
     (if p = [] then None
      else Some (walk (if hd p = CHR ''/'' then [] else dir) (split_path p)))"

definition render :: "path \<Rightarrow> string" where
  "render p = (if p = [] then ''/'' else concat (map (\<lambda>c. CHR ''/'' # c) p))"

subsubsection \<open>System calls\<close>

definition lookup :: "world \<Rightarrow> string \<Rightarrow> node option" where
  "lookup w p = (case resolve (cwd w) p of None \<Rightarrow> None | Some q \<Rightarrow> map_of (fs w) q)"

definition Stat :: "string \<Rightarrow> world \<Rightarrow> nat option" where
  "Stat p w = map_option ModTime (lookup w p)"

definition is_dir :: "filesys \<Rightarrow> path \<Rightarrow> bool" where
  "is_dir f q = (case map_of f q of Some n \<Rightarrow> IsDir n | None \<Rightarrow> False)"

definition Getwd :: "world \<Rightarrow> string option" where
  "Getwd w = (if is_dir (fs w) (cwd w) then Some (render (cwd w)) else None)"

definition Chdir :: "string \<Rightarrow> world \<Rightarrow> world option" where
  "Chdir dir w =
     (case resolve (cwd w) dir of
        None \<Rightarrow> None
      | Some q \<Rightarrow> if is_dir (fs w) q then Some (w\<lparr>cwd := q\<rparr>) else None)"

definition children :: "filesys \<Rightarrow> path \<Rightarrow> string list" where
  "children f d = sort (remdups (map last (filter (\<lambda>p. p \<noteq> [] \<and> butlast p = d) (map fst f))))"

definition ReadDir_dot :: "world \<Rightarrow> string list option" where
  "ReadDir_dot w = (if is_dir (fs w) (cwd w) then Some (children (fs w) (cwd w)) else None)"

definition unlink :: "path \<Rightarrow> filesys \<Rightarrow> filesys" where
  "unlink q f = filter (\<lambda>e. fst e \<noteq> q) f"

text \<open>\<open>os.Remove\<close> removes a file or an empty directory; the script ignores its error.\<close>

definition Remove :: "string \<Rightarrow> world \<Rightarrow> world" where
  "Remove p w =
     (case resolve (cwd w) p of
        None \<Rightarrow> w
      | Some q \<Rightarrow>
          (case map_of (fs w) q of
             None \<Rightarrow> w
           | Some (File t c) \<Rightarrow> w\<lparr>fs := unlink q (fs w)\<rparr>
           | Some (Dir t) \<Rightarrow> if children (fs w) q = [] then w\<lparr>fs := unlink q (fs w)\<rparr> else w))"

definition ReadFile :: "string \<Rightarrow> world \<Rightarrow> string option" where
  "ReadFile p w = (case lookup w p of Some (File t c) \<Rightarrow> Some c | _ \<Rightarrow> None)"

definition WriteFile :: "string \<Rightarrow> string \<Rightarrow> world \<Rightarrow> world option" where
  "WriteFile p data w =
     (case resolve (cwd w) p of
        None \<Rightarrow> None
      | Some q \<Rightarrow>
          if q \<noteq> [] \<and> is_dir (fs w) (butlast q) \<and> \<not> is_dir (fs w) q
          then Some (w\<lparr>fs := (q, File (clock w) data) # unlink q (fs w)\<rparr>)
          else None)"

definition HasSuffix :: "string \<Rightarrow> string \<Rightarrow> bool" where
  "HasSuffix s suffix =
     (length s \<ge> length suffix \<and> drop (length s - length suffix) s = suffix)"

subsection \<open>The staleness evaluator \<open>done\<close>\<close>

text \<open>
  The variadic \<open>deps ...interface{}\<close> holds values of any type. The type switch of
  \<open>done\<close> has a case for \<open>string\<close>, a case for \<open>func() bool\<close> and no default case:
  \<open>Other\<close> stands for a value of any other dynamic type. A function value is paired with
  the name that \<open>runtime.FuncForPC(...).Name()\<close> reports for it (\<open>main.peg0\<close> for the
  top-level function \<open>peg0\<close> of package \<open>main\<close>).
\<close>

datatype dep = Str string | Fn string "bool prog" | Other

text \<open>
  The loop over \<open>deps\<close>: \<open>info\<close> is the modification time of the output when
  \<open>os.Stat\<close> found it (\<open>info == nil\<close> is \<open>None\<close>), \<open>fini\<close> the flag so far.
\<close>

fun done_deps :: "nat option \<Rightarrow> dep list \<Rightarrow> bool \<Rightarrow> bool prog" where
  "done_deps info [] fini w = Ok fini w"
| "done_deps info (Str d # deps) fini w =
     (case info of
        None \<Rightarrow> done_deps info deps False w
      | Some t \<Rightarrow>
          (case Stat (FromSlash d) w of
             None \<Rightarrow> Panic (StatError (FromSlash d)) w
           | Some t' \<Rightarrow> done_deps info deps (if t < t' then False else fini) w))"
| "done_deps info (Fn name f # deps) fini w =
     (case processed w name of
        Some result \<Rightarrow>
          done_deps info deps (fini \<and> result) (print (name @ '' is done\<newline>'') w)
      | None \<Rightarrow>
          (case f w of
             Panic e w1 \<Rightarrow> Panic e w1
           | Ok result w1 \<Rightarrow>
               done_deps info deps (fini \<and> result)
                 ((print (name @ ''\<newline>'') w1)\<lparr>processed := (processed w1)(name \<mapsto> result)\<rparr>)))"
| "done_deps info (Other # deps) fini w = done_deps info deps fini w"

text \<open>The function \<open>done\<close> of the script (\<open>done\<close> is a keyword of Isabelle).\<close>

definition done' :: "string \<Rightarrow> dep list \<Rightarrow> bool prog" where
  "done' file deps w =
     (let info = Stat (FromSlash file) w
      in done_deps info deps (info \<noteq> None) w)"

subsection \<open>Directory switch, process invoker, deletion\<close>

definition chdir :: "string \<Rightarrow> string prog" where
  "chdir dir0 w =
     (let dir = FromSlash dir0
      in case Getwd w of
           None \<Rightarrow> Panic GetwdError w
         | Some working \<Rightarrow>
             (case Chdir dir w of
                None \<Rightarrow> Panic (ChdirError dir) w
              | Some w1 \<Rightarrow> Ok working (print (''cd '' @ dir @ ''\<newline>'') w1)))"

text \<open>
  \<open>spawn\<close> runs the child to its end (\<open>cmd.Output\<close>, \<open>cmd.CombinedOutput\<close>) and
  records it. The goroutine that writes the input to the pipe of the child runs
  concurrently in the script; here the feeding is part of the child's outcome.
  \<open>cmd.StdinPipe\<close> cannot fail on a command that has not been started and has no input set.
\<close>

definition spawn :: "exec \<Rightarrow> invocation \<Rightarrow> world \<Rightarrow> outcome \<times> world" where
  "spawn ex iv w =
     (let oc = ex iv (fs w) (clock w)
      in (oc, w\<lparr>fs := oc_fs oc, clock := oc_clock oc, procs := procs w @ [(iv, oc_ok oc)]\<rparr>))"

definition read_input :: "string \<Rightarrow> (string option) prog" where
  "read_input inputFile w =
     (if inputFile \<noteq> [] then
        (let w1 = print ('' < '' @ inputFile) w
         in case ReadFile inputFile w1 of
              None \<Rightarrow> Panic (ReadFileError inputFile) w1
            | Some input \<Rightarrow> Ok (Some input) w1)
      else Ok None w)"

definition run_child :: "exec \<Rightarrow> string \<Rightarrow> string list \<Rightarrow> string \<Rightarrow> string option \<Rightarrow> unit prog" where
  "run_child ex name arg outputFile input w =
     (let iv = Invocation (cwd w) name arg input
      in if outputFile \<noteq> [] then
           (case spawn ex iv (print ('' > '' @ outputFile @ ''\<newline>'') w) of
              (oc, w1) \<Rightarrow>
                if \<not> oc_ok oc then Panic (ExecError iv) w1
                else (case WriteFile outputFile (oc_stdout oc) w1 of
                        None \<Rightarrow> Panic (WriteFileError outputFile) w1
                      | Some w2 \<Rightarrow> Ok () w2))
         else
           (case spawn ex iv w of
              (oc, w1) \<Rightarrow>
                if \<not> oc_ok oc then Panic (ExecError iv) (print (''\<newline>'' @ oc_combined oc) w1)
                else Ok () (print (''\<newline>'' @ oc_combined oc) w1)))"

definition command :: "exec \<Rightarrow> string \<Rightarrow> string \<Rightarrow> string \<Rightarrow> string list \<Rightarrow> unit prog" where
  "command ex name inputFile outputFile arg w =
     bind (read_input (FromSlash inputFile))
       (run_child ex (FromSlash name) arg (FromSlash outputFile))
       (fold (\<lambda>a. print ('' '' @ a)) arg (print (FromSlash name) w))"

definition delete :: "string \<Rightarrow> unit prog" where
  "delete file w =
     Ok () (Remove (FromSlash file) (print (''rm -f '' @ FromSlash file @ ''\<newline>'') w))"

fun delete_each :: "string \<Rightarrow> string list \<Rightarrow> unit prog" where
  "delete_each suffix [] w = Ok () w"
| "delete_each suffix (name # files) w =
     (if HasSuffix name suffix then bind (delete name) (\<lambda>u. delete_each suffix files) w
      else delete_each suffix files w)"

definition deleteFilesWithSuffix :: "string \<Rightarrow> unit prog" where
  "deleteFilesWithSuffix suffix w =
     (case ReadDir_dot w of
        None \<Rightarrow> Panic ReadDirError w
      | Some files \<Rightarrow> delete_each suffix files w)"

subsection \<open>The targets\<close>

text \<open>
  Every target function has the shape \<open>if done(...) { return true }; ...; return false\<close>.
  The statements after the guard, up to and including \<open>return false\<close>, are the target's
  action; each is a definition of its own (\<open>_action\<close>) so that the theorems can name it.
\<close>

definition seq :: "unit prog \<Rightarrow> 'a prog \<Rightarrow> 'a prog" where
  "seq m n = bind m (\<lambda>u. n)"

definition guard :: "bool prog \<Rightarrow> bool prog \<Rightarrow> bool prog" where
  "guard check action = bind check (\<lambda>up. if up then return True else action)"

definition bootstrap_action :: "exec \<Rightarrow> bool prog" where
  "bootstrap_action ex =
     bind (chdir ''bootstrap'') (\<lambda>wd. deferred (chdir wd)
       (seq (command ex ''go'' '''' '''' [''build''])
       (return False)))"

definition bootstrap :: "exec \<Rightarrow> bool prog" where
  "bootstrap ex =
     guard (done' ''bootstrap/bootstrap'' [Str ''bootstrap/main.go'', Str ''tree/peg.go''])
       (bootstrap_action ex)"

definition peg0_action :: "exec \<Rightarrow> bool prog" where
  "peg0_action ex =
     bind (chdir ''cmd/peg-bootstrap/'') (\<lambda>wd. deferred (chdir wd)
       (seq (deleteFilesWithSuffix ''.peg.go'')
       (seq (command ex ''../../bootstrap/bootstrap'' '''' '''' [])
       (seq (command ex ''go'' '''' '''' [''build'', ''-tags'', ''bootstrap'', ''-o'', ''peg0''])
       (return False)))))"

definition peg0 :: "exec \<Rightarrow> bool prog" where
  "peg0 ex =
     guard (done' ''cmd/peg-bootstrap/peg0''
              [Str ''cmd/peg-bootstrap/main.go'', Fn ''main.bootstrap'' (bootstrap ex)])
       (peg0_action ex)"

definition peg1_action :: "exec \<Rightarrow> bool prog" where
  "peg1_action ex =
     bind (chdir ''cmd/peg-bootstrap/'') (\<lambda>wd. deferred (chdir wd)
       (seq (deleteFilesWithSuffix ''.peg.go'')
       (seq (command ex ''./peg0'' ''bootstrap.peg'' ''peg1.peg.go'' [])
       (seq (command ex ''go'' '''' '''' [''build'', ''-tags'', ''bootstrap'', ''-o'', ''peg1''])
       (return False)))))"

definition peg1 :: "exec \<Rightarrow> bool prog" where
  "peg1 ex =
     guard (done' ''cmd/peg-bootstrap/peg1''
              [Fn ''main.peg0'' (peg0 ex), Str ''cmd/peg-bootstrap/bootstrap.peg''])
       (peg1_action ex)"

definition peg2_action :: "exec \<Rightarrow> bool prog" where
  "peg2_action ex =
     bind (chdir ''cmd/peg-bootstrap/'') (\<lambda>wd. deferred (chdir wd)
       (seq (deleteFilesWithSuffix ''.peg.go'')
       (seq (command ex ''./peg1'' ''peg.bootstrap.peg'' ''peg2.peg.go'' [])
       (seq (command ex ''go'' '''' '''' [''build'', ''-tags'', ''bootstrap'', ''-o'', ''peg2''])
       (return False)))))"

definition peg2 :: "exec \<Rightarrow> bool prog" where
  "peg2 ex =
     guard (done' ''cmd/peg-bootstrap/peg2''
              [Fn ''main.peg1'' (peg1 ex), Str ''cmd/peg-bootstrap/peg.bootstrap.peg''])
       (peg2_action ex)"

definition peg3_action :: "exec \<Rightarrow> bool prog" where
  "peg3_action ex =
     bind (chdir ''cmd/peg-bootstrap/'') (\<lambda>wd. deferred (chdir wd)
       (seq (deleteFilesWithSuffix ''.peg.go'')
       (seq (command ex ''./peg2'' ''../../peg.peg'' ''peg3.peg.go'' [])
       (seq (command ex ''go'' '''' '''' [''build'', ''-tags'', ''bootstrap'', ''-o'', ''peg3''])
       (return False)))))"

definition peg3 :: "exec \<Rightarrow> bool prog" where
  "peg3 ex =
     guard (done' ''cmd/peg-bootstrap/peg3'' [Fn ''main.peg2'' (peg2 ex), Str ''peg.peg''])
       (peg3_action ex)"

definition peg_bootstrap_action :: "exec \<Rightarrow> bool prog" where
  "peg_bootstrap_action ex =
     bind (chdir ''cmd/peg-bootstrap/'') (\<lambda>wd. deferred (chdir wd)
       (seq (deleteFilesWithSuffix ''.peg.go'')
       (seq (command ex ''./peg3'' ''../../peg.peg'' ''peg-bootstrap.peg.go'' [])
       (seq (command ex ''go'' '''' '''' [''build'', ''-tags'', ''bootstrap'', ''-o'', ''peg-bootstrap''])
       (return False)))))"

definition peg_bootstrap :: "exec \<Rightarrow> bool prog" where
  "peg_bootstrap ex =
     guard (done' ''cmd/peg-bootstrap/peg-bootstrap'' [Fn ''main.peg3'' (peg3 ex)])
       (peg_bootstrap_action ex)"

definition peg_peg_go_action :: "exec \<Rightarrow> bool prog" where
  "peg_peg_go_action ex =
     seq (command ex ''cmd/peg-bootstrap/peg-bootstrap'' ''peg.peg'' ''peg.peg.go'' [])
    (seq (command ex ''go'' '''' '''' [''build''])
    (seq (command ex ''./peg'' '''' '''' [''-inline'', ''-switch'', ''peg.peg''])
    (return False)))"

definition peg_peg_go :: "exec \<Rightarrow> bool prog" where
  "peg_peg_go ex =
     guard (done' ''peg.peg.go'' [Fn ''main.peg_bootstrap'' (peg_bootstrap ex)])
       (peg_peg_go_action ex)"

definition peg_action :: "exec \<Rightarrow> bool prog" where
  "peg_action ex = seq (command ex ''go'' '''' '''' [''build'']) (return False)"

definition peg :: "exec \<Rightarrow> bool prog" where
  "peg ex =
     guard (done' ''peg'' [Fn ''main.peg_peg_go'' (peg_peg_go ex), Str ''main.go''])
       (peg_action ex)"


text \<open>
  The six grammar targets differ only in the directory and the grammar file:
  \<open>grammar_action ex dir file\<close> is their common action.
\<close>

definition grammar_action :: "exec \<Rightarrow> string \<Rightarrow> string \<Rightarrow> bool prog" where
  "grammar_action ex dir file =
     bind (chdir dir) (\<lambda>wd. deferred (chdir wd)
       (seq (command ex ''../../peg'' '''' '''' [''-switch'', ''-inline'', file])
       (return False)))"

definition grammars_c :: "exec \<Rightarrow> bool prog" where
  "grammars_c ex =
     guard (done' ''grammars/c/c.peg.go'' [Fn ''main.peg'' (peg ex), Str ''grammars/c/c.peg''])
       (grammar_action ex ''grammars/c/'' ''c.peg'')"

definition grammars_calculator :: "exec \<Rightarrow> bool prog" where
  "grammars_calculator ex =
     guard (done' ''grammars/calculator/calculator.peg.go''
              [Fn ''main.peg'' (peg ex), Str ''grammars/calculator/calculator.peg''])
       (grammar_action ex ''grammars/calculator/'' ''calculator.peg'')"

definition grammars_calculator_ast :: "exec \<Rightarrow> bool prog" where
  "grammars_calculator_ast ex =
     guard (done' ''grammars/calculator_ast/calculator.peg.go''
              [Fn ''main.peg'' (peg ex), Str ''grammars/calculator_ast/calculator.peg''])
       (grammar_action ex ''grammars/calculator_ast/'' ''calculator.peg'')"

definition grammars_fexl :: "exec \<Rightarrow> bool prog" where
  "grammars_fexl ex =
     guard (done' ''grammars/fexl/fexl.peg.go''
              [Fn ''main.peg'' (peg ex), Str ''grammars/fexl/fexl.peg''])
       (grammar_action ex ''grammars/fexl/'' ''fexl.peg'')"

definition grammars_java :: "exec \<Rightarrow> bool prog" where
  "grammars_java ex =
     guard (done' ''grammars/java/java_1_7.peg.go''
              [Fn ''main.peg'' (peg ex), Str ''grammars/java/java_1_7.peg''])
       (grammar_action ex ''grammars/java/'' ''java_1_7.peg'')"

definition grammars_long_test :: "exec \<Rightarrow> bool prog" where
  "grammars_long_test ex =
     guard (done' ''grammars/long_test/long.peg.go''
              [Fn ''main.peg'' (peg ex), Str ''grammars/long_test/long.peg''])
       (grammar_action ex ''grammars/long_test/'' ''long.peg'')"

definition test_action :: "exec \<Rightarrow> bool prog" where
  "test_action ex =
     seq (command ex ''go'' '''' '''' [''test'', ''-short'', ''-tags'', ''grammars'', ''./...''])
       (return False)"

definition test :: "exec \<Rightarrow> bool prog" where
  "test ex =
     guard (done' ''''
              [Fn ''main.grammars_c'' (grammars_c ex),
               Fn ''main.grammars_calculator'' (grammars_calculator ex),
               Fn ''main.grammars_calculator_ast'' (grammars_calculator_ast ex),
               Fn ''main.grammars_fexl'' (grammars_fexl ex),
               Fn ''main.grammars_java'' (grammars_java ex),
               Fn ''main.grammars_long_test'' (grammars_long_test ex)])
       (test_action ex)"


subsection \<open>Notions used by the theorems\<close>

text \<open>
  \<open>reached file deps i w\<close> is the world in which \<open>done\<close> examines its \<open>i\<close>-th
  dependency: the world left by the loop over the first \<open>i\<close> dependencies, if none of
  them panicked.
\<close>

definition reached :: "string \<Rightarrow> dep list \<Rightarrow> nat \<Rightarrow> world \<Rightarrow> world option" where
  "reached file deps i w =
     (case done' file (take i deps) w of Ok b w' \<Rightarrow> Some w' | Panic e w' \<Rightarrow> None)"

text \<open>
  \<open>dep_ok t d w\<close>: the dependency \<open>d\<close>, examined in world \<open>w\<close>, is up to date with
  respect to an output of modification time \<open>t\<close>. A file is up to date when it exists and is
  not newer than the output; a target when the cache holds \<open>true\<close> for it or, with no cache
  entry, when its evaluation returns \<open>true\<close>; a value of another type always.
\<close>

definition dep_ok :: "nat \<Rightarrow> dep \<Rightarrow> world \<Rightarrow> bool" where
  "dep_ok t d w =
     (case d of
        Str p \<Rightarrow> (case Stat (FromSlash p) w of Some t' \<Rightarrow> t' \<le> t | None \<Rightarrow> False)
      | Fn name f \<Rightarrow>
          (case processed w name of
             Some r \<Rightarrow> r
           | None \<Rightarrow> (case f w of Ok r w' \<Rightarrow> r | Panic e w' \<Rightarrow> False))
      | Other \<Rightarrow> True)"

text \<open>
  The table of the targets that go through \<open>done\<close>: the function, the output path and
  the dependencies it passes to \<open>done\<close>, and its action.
\<close>

definition targets :: "exec \<Rightarrow> (bool prog \<times> string \<times> dep list \<times> bool prog) list" where
  "targets ex =
     [(bootstrap ex, ''bootstrap/bootstrap'',
         [Str ''bootstrap/main.go'', Str ''tree/peg.go''], bootstrap_action ex),
      (peg0 ex, ''cmd/peg-bootstrap/peg0'',
         [Str ''cmd/peg-bootstrap/main.go'', Fn ''main.bootstrap'' (bootstrap ex)],
         peg0_action ex),
      (peg1 ex, ''cmd/peg-bootstrap/peg1'',
         [Fn ''main.peg0'' (peg0 ex), Str ''cmd/peg-bootstrap/bootstrap.peg''], peg1_action ex),
      (peg2 ex, ''cmd/peg-bootstrap/peg2'',
         [Fn ''main.peg1'' (peg1 ex), Str ''cmd/peg-bootstrap/peg.bootstrap.peg''],
         peg2_action ex),
      (peg3 ex, ''cmd/peg-bootstrap/peg3'',
         [Fn ''main.peg2'' (peg2 ex), Str ''peg.peg''], peg3_action ex),
      (peg_bootstrap ex, ''cmd/peg-bootstrap/peg-bootstrap'',
         [Fn ''main.peg3'' (peg3 ex)], peg_bootstrap_action ex),
      (peg_peg_go ex, ''peg.peg.go'',
         [Fn ''main.peg_bootstrap'' (peg_bootstrap ex)], peg_peg_go_action ex),
      (peg ex, ''peg'',
         [Fn ''main.peg_peg_go'' (peg_peg_go ex), Str ''main.go''], peg_action ex),
      (grammars_c ex, ''grammars/c/c.peg.go'',
         [Fn ''main.peg'' (peg ex), Str ''grammars/c/c.peg''],
         grammar_action ex ''grammars/c/'' ''c.peg''),
      (grammars_calculator ex, ''grammars/calculator/calculator.peg.go'',
         [Fn ''main.peg'' (peg ex), Str ''grammars/calculator/calculator.peg''],
         grammar_action ex ''grammars/calculator/'' ''calculator.peg''),
      (grammars_calculator_ast ex, ''grammars/calculator_ast/calculator.peg.go'',
         [Fn ''main.peg'' (peg ex), Str ''grammars/calculator_ast/calculator.peg''],
         grammar_action ex ''grammars/calculator_ast/'' ''calculator.peg''),
      (grammars_fexl ex, ''grammars/fexl/fexl.peg.go'',
         [Fn ''main.peg'' (peg ex), Str ''grammars/fexl/fexl.peg''],
         grammar_action ex ''grammars/fexl/'' ''fexl.peg''),
      (grammars_java ex, ''grammars/java/java_1_7.peg.go'',
         [Fn ''main.peg'' (peg ex), Str ''grammars/java/java_1_7.peg''],
         grammar_action ex ''grammars/java/'' ''java_1_7.peg''),
      (grammars_long_test ex, ''grammars/long_test/long.peg.go'',
         [Fn ''main.peg'' (peg ex), Str ''grammars/long_test/long.peg''],
         grammar_action ex ''grammars/long_test/'' ''long.peg''),
      (test ex, '''',
         [Fn ''main.grammars_c'' (grammars_c ex),
          Fn ''main.grammars_calculator'' (grammars_calculator ex),
          Fn ''main.grammars_calculator_ast'' (grammars_calculator_ast ex),
          Fn ''main.grammars_fexl'' (grammars_fexl ex),
          Fn ''main.grammars_java'' (grammars_java ex),
          Fn ''main.grammars_long_test'' (grammars_long_test ex)],
         test_action ex)]"


text \<open>
  \<open>runs k m\<close>: whatever \<open>m\<close> does, the child processes it starts are appended to the
  log; when \<open>m\<close> returns, all of them succeeded and there are at least \<open>k\<close>; when
  \<open>m\<close> panics, all but possibly the last succeeded.
\<close>

definition runs :: "nat \<Rightarrow> 'a prog \<Rightarrow> bool" where
  "runs k m \<longleftrightarrow>
     (\<forall>w. case m w of
            Ok a w' \<Rightarrow> (\<exists>new. procs w' = procs w @ new \<and> list_all snd new \<and> k \<le> length new)
          | Panic e w' \<Rightarrow> (\<exists>new. procs w' = procs w @ new \<and> list_all snd (butlast new)))"

fun dep_runs :: "dep \<Rightarrow> bool" where
  "dep_runs (Fn name f) = runs 0 f"
| "dep_runs d = True"

text \<open>\<open>yields v m\<close>: when \<open>m\<close> returns, it returns \<open>v\<close>.\<close>

definition yields :: "'a \<Rightarrow> 'a prog \<Rightarrow> bool" where
  "yields v m \<longleftrightarrow> (\<forall>w a w'. m w = Ok a w' \<longrightarrow> a = v)"

text \<open>
  The child process that \<open>command\<close> asks for in world \<open>w\<close>: it runs in the current
  directory and gets the content of the input file, if one is named.
\<close>

definition child_of :: "string \<Rightarrow> string \<Rightarrow> string list \<Rightarrow> world \<Rightarrow> invocation" where
  "child_of name inputFile arg w =
     Invocation (cwd w) (FromSlash name) arg
       (if FromSlash inputFile = [] then None else ReadFile (FromSlash inputFile) w)"

subsection \<open>Example worlds\<close>

text \<open>An external world in which every child process succeeds and changes no file.\<close>

definition ex_ok :: exec where
  "ex_ok iv f c = Outcome True ''out'' ''log'' f (Suc c)"

text \<open>A checkout of the project in \<open>/r\<close> in which every output is newer than its sources.\<close>

definition tree :: filesys where
  "tree =
    [([''r''], Dir 0),
     ([''r'', ''bootstrap''], Dir 0),
     ([''r'', ''bootstrap'', ''main.go''], File 1 ''''),
     ([''r'', ''bootstrap'', ''bootstrap''], File 2 ''''),
     ([''r'', ''tree''], Dir 0),
     ([''r'', ''tree'', ''peg.go''], File 1 ''''),
     ([''r'', ''cmd''], Dir 0),
     ([''r'', ''cmd'', ''peg-bootstrap''], Dir 0),
     ([''r'', ''cmd'', ''peg-bootstrap'', ''main.go''], File 1 ''''),
     ([''r'', ''cmd'', ''peg-bootstrap'', ''bootstrap.peg''], File 1 ''''),
     ([''r'', ''cmd'', ''peg-bootstrap'', ''peg.bootstrap.peg''], File 1 ''''),
     ([''r'', ''cmd'', ''peg-bootstrap'', ''peg0''], File 3 ''''),
     ([''r'', ''cmd'', ''peg-bootstrap'', ''peg1''], File 4 ''''),
     ([''r'', ''cmd'', ''peg-bootstrap'', ''peg2''], File 5 ''''),
     ([''r'', ''cmd'', ''peg-bootstrap'', ''peg3''], File 6 ''''),
     ([''r'', ''cmd'', ''peg-bootstrap'', ''peg-bootstrap''], File 7 ''''),
     ([''r'', ''cmd'', ''peg-bootstrap'', ''peg-bootstrap.peg.go''], File 7 ''''),
     ([''r'', ''peg.peg''], File 1 ''''),
     ([''r'', ''main.go''], File 1 ''''),
     ([''r'', ''peg.peg.go''], File 8 ''''),
     ([''r'', ''peg''], File 9 ''''),
     ([''r'', ''grammars''], Dir 0),
     ([''r'', ''grammars'', ''c''], Dir 0),
     ([''r'', ''grammars'', ''c'', ''c.peg''], File 1 ''''),
     ([''r'', ''grammars'', ''c'', ''c.peg.go''], File 10 ''''),
     ([''r'', ''grammars'', ''calculator''], Dir 0),
     ([''r'', ''grammars'', ''calculator'', ''calculator.peg''], File 1 ''''),
     ([''r'', ''grammars'', ''calculator'', ''calculator.peg.go''], File 10 ''''),
     ([''r'', ''grammars'', ''calculator_ast''], Dir 0),
     ([''r'', ''grammars'', ''calculator_ast'', ''calculator.peg''], File 1 ''''),
     ([''r'', ''grammars'', ''calculator_ast'', ''calculator.peg.go''], File 10 ''''),
     ([''r'', ''grammars'', ''fexl''], Dir 0),
     ([''r'', ''grammars'', ''fexl'', ''fexl.peg''], File 1 ''''),
     ([''r'', ''grammars'', ''fexl'', ''fexl.peg.go''], File 10 ''''),
     ([''r'', ''grammars'', ''java''], Dir 0),
     ([''r'', ''grammars'', ''java'', ''java_1_7.peg''], File 1 ''''),
     ([''r'', ''grammars'', ''java'', ''java_1_7.peg.go''], File 10 ''''),
     ([''r'', ''grammars'', ''long_test''], Dir 0),
     ([''r'', ''grammars'', ''long_test'', ''long.peg''], File 1 ''''),
     ([''r'', ''grammars'', ''long_test'', ''long.peg.go''], File 10 '''')]"

definition fresh :: world where
  "fresh = \<lparr>cwd = [''r''], fs = tree, clock = 20, processed = Map.empty, stdout = [],
             procs = []\<rparr>"

text \<open>An empty directory \<open>/r\<close>: no source and no output exists.\<close>

definition bare :: world where
  "bare = \<lparr>cwd = [''r''], fs = [([''r''], Dir 0)], clock = 20, processed = Map.empty,
            stdout = [], procs = []\<rparr>"

text \<open>The directory \<open>/r\<close> with the output of \<open>bootstrap\<close> but without its sources.\<close>

definition built_only :: world where
  "built_only = \<lparr>cwd = [''r''],
       fs = [([''r''], Dir 0), ([''r'', ''bootstrap''], Dir 0),
             ([''r'', ''bootstrap'', ''bootstrap''], File 2 '''')],
       clock = 20, processed = Map.empty, stdout = [], procs = []\<rparr>"


text \<open>The directory \<open>/r\<close> in which \<open>bootstrap/main.go\<close> is newer than the output of \<open>bootstrap\<close>.\<close>

definition stale_boot :: world where
  "stale_boot = \<lparr>cwd = [''r''],
       fs = [([''r''], Dir 0), ([''r'', ''bootstrap''], Dir 0),
             ([''r'', ''bootstrap'', ''main.go''], File 5 ''''),
             ([''r'', ''bootstrap'', ''bootstrap''], File 2 ''''),
             ([''r'', ''tree''], Dir 0), ([''r'', ''tree'', ''peg.go''], File 1 '''')],
       clock = 20, processed = Map.empty, stdout = [], procs = []\<rparr>"

section \<open>Properties\<close>

subsection \<open>Basic facts\<close>

lemma FromSlash_id [simp]: "FromSlash p = p"
  by (simp add: FromSlash_def Separator_def)

lemma Stat_frame [simp]:
  "Stat p (w\<lparr>stdout := s\<rparr>) = Stat p w"
  "Stat p (w\<lparr>processed := m\<rparr>) = Stat p w"
  "Stat p (w\<lparr>procs := l\<rparr>) = Stat p w"
  "Stat p (w\<lparr>clock := c\<rparr>) = Stat p w"
  "Stat p (print x w) = Stat p w"
  by (simp_all add: Stat_def lookup_def print_def split: option.split)

lemma print_fields [simp]:
  "processed (print s w) = processed w"
  "cwd (print s w) = cwd w"
  "fs (print s w) = fs w"
  "clock (print s w) = clock w"
  "procs (print s w) = procs w"
  "stdout (print s w) = stdout w @ [s]"
  by (simp_all add: print_def)

lemma done_deps_append:
  "done_deps info (xs @ ys) fini w =
     (case done_deps info xs fini w of
        Ok b w1 \<Rightarrow> done_deps info ys b w1
      | Panic e w1 \<Rightarrow> Panic e w1)"
proof (induction xs arbitrary: info fini w)
  case Nil
  show ?case by simp
next
  case (Cons d xs)
  show ?case
  proof (cases d)
    case (Str p)
    then show ?thesis by (cases info) (auto simp: Cons.IH split: option.split)
  next
    case (Fn name f)
    then show ?thesis by (cases "f w") (simp_all add: Cons.IH split: option.split)
  next
    case Other
    then show ?thesis by (simp add: Cons.IH)
  qed
qed

lemma done_deps_False:
  "done_deps info deps False w = Ok b w' \<Longrightarrow> \<not> b"
proof (induction deps arbitrary: w)
  case Nil
  then show ?case by simp
next
  case (Cons d deps)
  then show ?case
    by (cases d) (auto split: option.splits result.splits)
qed

lemma done_deps_single:
  "(\<exists>w'. done_deps (Some t) [d] b w = Ok True w') \<longleftrightarrow> b \<and> dep_ok t d w"
  by (cases d) (auto simp: dep_ok_def split: option.splits result.splits)

lemma done_deps_True_iff:
  "(\<exists>w'. done_deps (Some t) deps True w = Ok True w') \<longleftrightarrow>
   (\<forall>i<length deps. \<exists>b wi. done_deps (Some t) (take i deps) True w = Ok b wi
                            \<and> dep_ok t (deps ! i) wi)"
proof (induction deps rule: rev_induct)
  case Nil
  show ?case by simp
next
  case (snoc d xs)
  have L: "(\<exists>w'. done_deps (Some t) (xs @ [d]) True w = Ok True w') \<longleftrightarrow>
           (\<exists>w1. done_deps (Some t) xs True w = Ok True w1 \<and> dep_ok t d w1)"
    using done_deps_single [of t d]
    by (auto simp: done_deps_append split: result.splits)
  have R: "(\<forall>i<length (xs @ [d]). \<exists>b wi.
               done_deps (Some t) (take i (xs @ [d])) True w = Ok b wi
               \<and> dep_ok t ((xs @ [d]) ! i) wi) \<longleftrightarrow>
           (\<forall>i<length xs. \<exists>b wi. done_deps (Some t) (take i xs) True w = Ok b wi
               \<and> dep_ok t (xs ! i) wi)
           \<and> (\<exists>b wi. done_deps (Some t) xs True w = Ok b wi \<and> dep_ok t d wi)"
    by (auto simp: less_Suc_eq nth_append)
  show ?case
    unfolding L R snoc.IH [symmetric] by auto
qed

lemma stat_fresh:
  "Stat ''bootstrap/bootstrap'' fresh = Some 2"
  "Stat ''bootstrap/main.go'' fresh = Some 1"
  "Stat ''tree/peg.go'' fresh = Some 1"
  "Stat ''cmd/peg-bootstrap/peg0'' fresh = Some 3"
  "Stat ''cmd/peg-bootstrap/main.go'' fresh = Some 1"
  "Stat ''cmd/peg-bootstrap/peg1'' fresh = Some 4"
  "Stat ''cmd/peg-bootstrap/bootstrap.peg'' fresh = Some 1"
  by (simp_all add: Stat_def lookup_def resolve_def fresh_def tree_def)

lemma processed_fresh: "processed fresh = Map.empty"
  by (simp add: fresh_def)

lemma bootstrap_fresh: "bootstrap ex fresh = Ok True fresh"
  by (simp add: bootstrap_def guard_def bind_def done'_def stat_fresh return_def)

subsection \<open>The staleness evaluator\<close>

text \<open>
  Claim C1. \<open>done\<close> returns \<open>true\<close> exactly when the output exists (\<open>os.Stat\<close> gives
  its modification time \<open>t\<close>) and every dependency, in the world in which the loop examines
  it, is up to date: a string dependency exists and its modification time is not after \<open>t\<close>,
  and a function dependency reported \<open>true\<close> (from the cache, or by its evaluation).
\<close>

theorem done_up_to_date_iff:
  "(\<exists>w'. done' file deps w = Ok True w') \<longleftrightarrow>
   (\<exists>t. Stat (FromSlash file) w = Some t \<and>
        (\<forall>i<length deps. \<exists>wi. reached file deps i w = Some wi \<and> dep_ok t (deps ! i) wi))"
proof (cases "Stat (FromSlash file) w")
  case None
  then show ?thesis
    by (auto simp: done'_def dest: done_deps_False)
next
  case (Some t)
  have "(\<exists>wi. reached file deps i w = Some wi \<and> P wi) \<longleftrightarrow>
        (\<exists>b wi. done_deps (Some t) (take i deps) True w = Ok b wi \<and> P wi)" for i P
    using Some by (auto simp: done'_def reached_def split: result.splits)
  then show ?thesis
    using Some done_deps_True_iff [of t deps w] by (simp add: done'_def)
qed

text \<open>
  In the fresh checkout the evaluation of \<open>peg0\<close> reports up to date: its output
  exists, \<open>cmd/peg-bootstrap/main.go\<close> is older, and \<open>bootstrap\<close> reports up to date.
\<close>

theorem done_up_to_date_iff_witness:
  "\<exists>w'. done' ''cmd/peg-bootstrap/peg0''
           [Str ''cmd/peg-bootstrap/main.go'', Fn ''main.bootstrap'' (bootstrap ex_ok)] fresh
         = Ok True w'"
proof -
  let ?deps = "[Str ''cmd/peg-bootstrap/main.go'', Fn ''main.bootstrap'' (bootstrap ex_ok)]"
  have 0: "reached ''cmd/peg-bootstrap/peg0'' ?deps 0 fresh = Some fresh"
    by (simp add: reached_def done'_def)
  have 1: "reached ''cmd/peg-bootstrap/peg0'' ?deps 1 fresh = Some fresh"
    by (simp add: reached_def done'_def stat_fresh)
  have "\<forall>i<length ?deps. \<exists>wi. reached ''cmd/peg-bootstrap/peg0'' ?deps i fresh = Some wi
          \<and> dep_ok 3 (?deps ! i) wi"
    using 0 1
    by (simp add: less_Suc_eq dep_ok_def stat_fresh processed_fresh bootstrap_fresh)
  then show ?thesis
    using done_up_to_date_iff [of "''cmd/peg-bootstrap/peg0''" ?deps fresh]
    by (simp add: stat_fresh)
qed

text \<open>
  Claim C10. A dependency that is neither a string nor a \<open>func() bool\<close> is skipped: the
  evaluation with it equals the evaluation without it, in result, cache and every other part
  of the world, wherever it stands in the list.
\<close>

theorem done_ignores_other:
  "done' file (xs @ Other # ys) w = done' file (xs @ ys) w"
  by (simp add: done'_def done_deps_append Let_def split: result.split)

text \<open>
  Claim C5, as the code has it. The string dependencies are examined only when the output
  exists. Then a string dependency that the loop reaches and that \<open>os.Stat\<close> does not find
  makes \<open>done\<close> panic with the error of that \<open>os.Stat\<close>, in the world reached. When the
  output does not exist, a string dependency is not examined at all: the evaluation is the
  one of the list without it.
\<close>

theorem done_stat_failure:
  "(Stat (FromSlash file) w = Some t \<longrightarrow> i < length deps \<longrightarrow> deps ! i = Str p \<longrightarrow>
      reached file deps i w = Some wi \<longrightarrow> Stat (FromSlash p) wi = None \<longrightarrow>
      done' file deps w = Panic (StatError (FromSlash p)) wi)
   \<and> (Stat (FromSlash file) w = None \<longrightarrow>
        done' file (xs @ Str q # ys) w = done' file (xs @ ys) w)"
proof (intro conjI impI)
  assume t: "Stat (FromSlash file) w = Some t" and i: "i < length deps"
    and d: "deps ! i = Str p" and r: "reached file deps i w = Some wi"
    and n: "Stat (FromSlash p) wi = None"
  have deps: "deps = take i deps @ Str p # drop (Suc i) deps"
    using i d by (metis id_take_nth_drop)
  obtain b where b: "done_deps (Some t) (take i deps) True w = Ok b wi"
    using r t by (auto simp: reached_def done'_def split: result.splits)
  have "done_deps (Some t) (take i deps @ Str p # drop (Suc i) deps) True w
          = Panic (StatError (FromSlash p)) wi"
    using b n by (simp add: done_deps_append)
  then show "done' file deps w = Panic (StatError (FromSlash p)) wi"
    using t deps by (simp add: done'_def)
next
  assume n: "Stat (FromSlash file) w = None"
  have "done_deps None (xs @ Str q # ys) False w = done_deps None (xs @ ys) False w"
    by (auto simp: done_deps_append split: result.splits dest: done_deps_False)
  then show "done' file (xs @ Str q # ys) w = done' file (xs @ ys) w"
    using n by (simp add: done'_def)
qed

text \<open>
  With the output of \<open>bootstrap\<close> present and its source \<open>bootstrap/main.go\<close> missing,
  the evaluation panics; with neither present, it is the evaluation of the other dependency
  alone.
\<close>

theorem done_stat_failure_witness:
  "done' ''bootstrap/bootstrap'' [Str ''bootstrap/main.go'', Str ''tree/peg.go''] built_only
     = Panic (StatError ''bootstrap/main.go'') built_only
   \<and> done' ''bootstrap/bootstrap'' [Str ''bootstrap/main.go'', Str ''tree/peg.go''] bare
     = done' ''bootstrap/bootstrap'' [Str ''tree/peg.go''] bare"
proof -
  have s: "Stat ''bootstrap/bootstrap'' built_only = Some 2"
      "Stat ''bootstrap/main.go'' built_only = None"
      "Stat ''bootstrap/bootstrap'' bare = None"
    by (simp_all add: Stat_def lookup_def resolve_def built_only_def bare_def)
  have r: "reached ''bootstrap/bootstrap'' [Str ''bootstrap/main.go'', Str ''tree/peg.go''] 0
             built_only = Some built_only"
    by (simp add: reached_def done'_def)
  show ?thesis
    using done_stat_failure [of "''bootstrap/bootstrap''" built_only 2 0
        "[Str ''bootstrap/main.go'', Str ''tree/peg.go'']" "''bootstrap/main.go''" built_only]
      done_stat_failure [of "''bootstrap/bootstrap''" bare _ _ _ _ _
        "[]" "''bootstrap/main.go''" "[Str ''tree/peg.go'']"] s r
    by simp
qed

text \<open>
  The claim as written fails: in the empty directory the source \<open>bootstrap/main.go\<close> of
  \<open>bootstrap\<close> cannot be found, and \<open>done\<close> returns \<open>false\<close> instead of panicking.
\<close>

theorem done_missing_dep_not_fatal:
  "Stat ''bootstrap/main.go'' bare = None
   \<and> done' ''bootstrap/bootstrap'' [Str ''bootstrap/main.go'', Str ''tree/peg.go''] bare
       = Ok False bare"
  by (simp add: Stat_def lookup_def resolve_def bare_def done'_def)

subsection \<open>Child processes: what a function starts, and what a failure does\<close>

lemma runsI:
  assumes "\<And>w a w'. m w = Ok a w' \<Longrightarrow> \<exists>new. procs w' = procs w @ new \<and> list_all snd new \<and> k \<le> length new"
    and "\<And>w e w'. m w = Panic e w' \<Longrightarrow> \<exists>new. procs w' = procs w @ new \<and> list_all snd (butlast new)"
  shows "runs k m"
  unfolding runs_def using assms by (auto split: result.split)

lemma runs_OkD:
  "runs k m \<Longrightarrow> m w = Ok a w' \<Longrightarrow> \<exists>new. procs w' = procs w @ new \<and> list_all snd new \<and> k \<le> length new"
  unfolding runs_def by (drule spec [of _ w]) simp

lemma runs_PanicD:
  "runs k m \<Longrightarrow> m w = Panic e w' \<Longrightarrow> \<exists>new. procs w' = procs w @ new \<and> list_all snd (butlast new)"
  unfolding runs_def by (drule spec [of _ w]) simp

lemma runs_weaken:
  assumes "runs k m" and "j \<le> k"
  shows "runs j m"
proof (rule runsI)
  fix w a w' assume "m w = Ok a w'"
  from runs_OkD [OF assms(1) this] assms(2)
  show "\<exists>new. procs w' = procs w @ new \<and> list_all snd new \<and> j \<le> length new"
    by (meson le_trans)
next
  fix w e w' assume "m w = Panic e w'"
  from runs_PanicD [OF assms(1) this]
  show "\<exists>new. procs w' = procs w @ new \<and> list_all snd (butlast new)" .
qed

lemma list_all_butlast_append:
  "list_all P xs \<Longrightarrow> list_all P (butlast ys) \<Longrightarrow> list_all P (butlast (xs @ ys))"
  by (cases "ys = []") (auto simp: butlast_append list_all_iff dest: in_set_butlastD)

lemma runs_return: "runs 0 (return a)"
  by (rule runsI) (auto simp: return_def)

lemma runs_bind:
  assumes m: "runs j m" and f: "\<And>a. runs k (f a)"
  shows "runs (j + k) (bind m f)"
proof (rule runsI)
  fix w a w' assume "bind m f w = Ok a w'"
  then obtain b w1 where 1: "m w = Ok b w1" and 2: "f b w1 = Ok a w'"
    by (auto simp: bind_def split: result.splits)
  from runs_OkD [OF m 1] runs_OkD [OF f 2]
  show "\<exists>new. procs w' = procs w @ new \<and> list_all snd new \<and> j + k \<le> length new"
    by (metis (no_types, lifting) add_mono append.assoc length_append list_all_append)
next
  fix w e w' assume p: "bind m f w = Panic e w'"
  show "\<exists>new. procs w' = procs w @ new \<and> list_all snd (butlast new)"
  proof (cases "m w")
    case (Ok b w1)
    with p have 2: "f b w1 = Panic e w'" by (simp add: bind_def)
    from runs_OkD [OF m Ok] runs_PanicD [OF f 2]
    show ?thesis
      by (metis append.assoc list_all_butlast_append)
  next
    case (Panic e1 w1)
    with p have "e1 = e" "w1 = w'" by (simp_all add: bind_def)
    with Panic runs_PanicD [OF m] show ?thesis by blast
  qed
qed

lemma runs_bind0: "runs 0 m \<Longrightarrow> (\<And>a. runs k (f a)) \<Longrightarrow> runs k (bind m f)"
  using runs_bind [of 0 m k f] by simp

lemma runs_seq: "runs j m \<Longrightarrow> runs k n \<Longrightarrow> runs (j + k) (seq m n)"
  unfolding seq_def by (rule runs_bind)

lemma runs_seq0: "runs 0 m \<Longrightarrow> runs k n \<Longrightarrow> runs k (seq m n)"
  using runs_seq [of 0 m k n] by simp

lemma runs_seq1: "runs 1 m \<Longrightarrow> runs 0 n \<Longrightarrow> runs 1 (seq m n)"
  using runs_seq [of 1 m 0 n] by simp

lemma runs_guard: "runs 0 c \<Longrightarrow> runs 0 act \<Longrightarrow> runs 0 (guard c act)"
  unfolding guard_def by (rule runs_bind0) (auto intro: runs_return)

lemma chdir_cases:
  "chdir dir w = Panic GetwdError w
   \<or> chdir dir w = Panic (ChdirError (FromSlash dir)) w
   \<or> (\<exists>q. Getwd w = Some (render (cwd w)) \<and> resolve (cwd w) (FromSlash dir) = Some q \<and>
          chdir dir w = Ok (render (cwd w)) (print (''cd '' @ FromSlash dir @ ''\<newline>'') (w\<lparr>cwd := q\<rparr>)))"
  by (auto simp: chdir_def Getwd_def Chdir_def print_def Let_def split: option.splits)

lemma procs_chdir:
  "chdir dir w = Ok a w' \<Longrightarrow> procs w' = procs w"
  "chdir dir w = Panic e w' \<Longrightarrow> procs w' = procs w"
  using chdir_cases [of dir w] by auto

lemma runs_chdir: "runs 0 (chdir dir)"
  by (rule runsI) (auto dest: procs_chdir)

lemma runs_deferred: 
  assumes "runs k body" shows "runs k (deferred (chdir wd) body)"
proof (rule runsI)
  fix w a w' assume "deferred (chdir wd) body w = Ok a w'"
  then obtain w1 x where 1: "body w = Ok a w1" and 2: "chdir wd w1 = Ok x w'"
    by (auto simp: deferred_def split: result.splits)
  from runs_OkD [OF assms 1] procs_chdir(1) [OF 2]
  show "\<exists>new. procs w' = procs w @ new \<and> list_all snd new \<and> k \<le> length new"
    by simp
next
  fix w e w' assume p: "deferred (chdir wd) body w = Panic e w'"
  show "\<exists>new. procs w' = procs w @ new \<and> list_all snd (butlast new)"
  proof (cases "body w")
    case (Ok a w1)
    with p have "procs w' = procs w1"
      by (auto simp: deferred_def split: result.splits dest: procs_chdir)
    with runs_OkD [OF assms Ok] show ?thesis
      by (auto simp: list_all_iff dest: in_set_butlastD)
  next
    case (Panic e1 w1)
    with p have "procs w' = procs w1"
      by (auto simp: deferred_def split: result.splits dest: procs_chdir)
    with runs_PanicD [OF assms Panic] show ?thesis by simp
  qed
qed

lemma Remove_fields [simp]:
  "procs (Remove p w) = procs w"
  "processed (Remove p w) = processed w"
  "cwd (Remove p w) = cwd w"
  by (simp_all add: Remove_def split: option.split node.split)

lemma runs_delete: "runs 0 (delete file)"
  by (rule runsI) (auto simp: delete_def)

lemma runs_delete_each: "runs 0 (delete_each suffix files)"
proof (induction files)
  case Nil
  show ?case by (rule runsI) auto
next
  case (Cons name files)
  have "delete_each suffix (name # files) =
        (if HasSuffix name suffix then bind (delete name) (\<lambda>u. delete_each suffix files)
         else delete_each suffix files)"
    by (rule ext) simp
  then show ?case
    using Cons by (auto intro: runs_bind0 runs_delete)
qed

lemma runs_deleteFilesWithSuffix: "runs 0 (deleteFilesWithSuffix suffix)"
proof (rule runsI)
  fix w a w' assume "deleteFilesWithSuffix suffix w = Ok a w'"
  then show "\<exists>new. procs w' = procs w @ new \<and> list_all snd new \<and> 0 \<le> length new"
    using runs_delete_each [of suffix]
    by (auto simp: deleteFilesWithSuffix_def split: option.splits dest: runs_OkD)
next
  fix w e w' assume "deleteFilesWithSuffix suffix w = Panic e w'"
  then show "\<exists>new. procs w' = procs w @ new \<and> list_all snd (butlast new)"
    using runs_delete_each [of suffix]
    by (auto simp: deleteFilesWithSuffix_def split: option.splits dest: runs_PanicD)
qed

lemma procs_fold_print [simp]: "procs (fold (\<lambda>a. print (f a)) xs w) = procs w"
  by (induction xs arbitrary: w) simp_all

lemma command_cases:
  "(\<exists>w'. command ex name inputFile outputFile arg w = Panic (ReadFileError (FromSlash inputFile)) w'
         \<and> procs w' = procs w)
   \<or> (\<exists>iv w'. command ex name inputFile outputFile arg w = Panic (ExecError iv) w'
         \<and> procs w' = procs w @ [(iv, False)])
   \<or> (\<exists>iv w'. command ex name inputFile outputFile arg w = Panic (WriteFileError (FromSlash outputFile)) w'
         \<and> procs w' = procs w @ [(iv, True)])
   \<or> (\<exists>iv w'. command ex name inputFile outputFile arg w = Ok () w'
         \<and> procs w' = procs w @ [(iv, True)])"
  by (auto simp: command_def bind_def read_input_def run_child_def spawn_def Let_def WriteFile_def
           split: option.splits result.splits prod.splits if_splits)

lemma runs_command: "runs 1 (command ex name inputFile outputFile arg)"
proof (rule runsI)
  fix w a w' assume "command ex name inputFile outputFile arg w = Ok a w'"
  then show "\<exists>new. procs w' = procs w @ new \<and> list_all snd new \<and> 1 \<le> length new"
    using command_cases [of ex name inputFile outputFile arg w] by auto
next
  fix w e w' assume "command ex name inputFile outputFile arg w = Panic e w'"
  then show "\<exists>new. procs w' = procs w @ new \<and> list_all snd (butlast new)"
    using command_cases [of ex name inputFile outputFile arg w] by auto
qed

lemma runs_done_deps:
  assumes "\<forall>d\<in>set deps. dep_runs d"
  shows "runs 0 (done_deps info deps fini)"
  using assms
proof (induction deps arbitrary: fini)
  case Nil
  show ?case by (rule runsI) auto
next
  case (Cons d deps)
  then have IH: "\<And>fini. runs 0 (done_deps info deps fini)" by simp
  show ?case
  proof (cases d)
    case (Str p)
    have step: "done_deps info (d # deps) fini w = done_deps info deps False w
        \<or> done_deps info (d # deps) fini w = done_deps info deps fini w
        \<or> done_deps info (d # deps) fini w = Panic (StatError (FromSlash p)) w" for w
      using Str by (simp split: option.split)
    show ?thesis
    proof (rule runsI)
      fix w a w' assume "done_deps info (d # deps) fini w = Ok a w'"
      with step [of w] have "\<exists>b. done_deps info deps b w = Ok a w'" by auto
      then show "\<exists>new. procs w' = procs w @ new \<and> list_all snd new \<and> 0 \<le> length new"
        using runs_OkD [OF IH] by blast
    next
      fix w e w' assume "done_deps info (d # deps) fini w = Panic e w'"
      with step [of w] have "(\<exists>b. done_deps info deps b w = Panic e w') \<or> w' = w" by auto
      then show "\<exists>new. procs w' = procs w @ new \<and> list_all snd (butlast new)"
        using runs_PanicD [OF IH] by auto
    qed
  next
    case (Fn name f)
    with Cons.prems have f: "runs 0 f" by simp
    let ?k = "\<lambda>result w1. done_deps info deps (fini \<and> result)
        ((print (name @ ''\<newline>'') w1)\<lparr>processed := (processed w1)(name \<mapsto> result)\<rparr>)"
    have k: "runs 0 (?k result)" for result
    proof (rule runsI)
      fix w a w' assume "?k result w = Ok a w'"
      from runs_OkD [OF IH this]
      show "\<exists>new. procs w' = procs w @ new \<and> list_all snd new \<and> 0 \<le> length new" by simp
    next
      fix w e w' assume "?k result w = Panic e w'"
      from runs_PanicD [OF IH this]
      show "\<exists>new. procs w' = procs w @ new \<and> list_all snd (butlast new)" by simp
    qed
    have miss: "runs 0 (bind f ?k)"
      using f k by (rule runs_bind0)
    show ?thesis
    proof (rule runsI)
      fix w a w' assume r: "done_deps info (d # deps) fini w = Ok a w'"
      show "\<exists>new. procs w' = procs w @ new \<and> list_all snd new \<and> 0 \<le> length new"
      proof (cases "processed w name")
        case None
        with r Fn have "bind f ?k w = Ok a w'" by (cases "f w") (simp_all add: bind_def)
        from runs_OkD [OF miss this] show ?thesis .
      next
        case (Some result)
        with r Fn have "done_deps info deps (fini \<and> result) (print (name @ '' is done\<newline>'') w) = Ok a w'"
          by simp
        from runs_OkD [OF IH this] show ?thesis by simp
      qed
    next
      fix w e w' assume r: "done_deps info (d # deps) fini w = Panic e w'"
      show "\<exists>new. procs w' = procs w @ new \<and> list_all snd (butlast new)"
      proof (cases "processed w name")
        case None
        with r Fn have "bind f ?k w = Panic e w'" by (cases "f w") (simp_all add: bind_def)
        from runs_PanicD [OF miss this] show ?thesis .
      next
        case (Some result)
        with r Fn have "done_deps info deps (fini \<and> result) (print (name @ '' is done\<newline>'') w) = Panic e w'"
          by simp
        from runs_PanicD [OF IH this] show ?thesis by simp
      qed
    qed
  next
    case Other
    then show ?thesis using IH [of fini] by (simp add: runs_def)
  qed
qed

lemma runs_done: "\<forall>d\<in>set deps. dep_runs d \<Longrightarrow> runs 0 (done' file deps)"
  using runs_done_deps [of deps] by (simp add: done'_def runs_def Let_def)

lemmas runs0 = runs_return runs_bind0 runs_seq0 runs_guard runs_chdir runs_deferred runs_delete
  runs_deleteFilesWithSuffix runs_command [THEN runs_weaken] runs_done

lemma runs_scoped:
  "runs k body \<Longrightarrow> runs k (bind (chdir dir) (\<lambda>wd. deferred (chdir wd) body))"
  by (intro runs_bind0 runs_chdir runs_deferred)

lemma runs_cmd_then: "runs 0 n \<Longrightarrow> runs 1 (seq (command ex name i out arg) n)"
  by (intro runs_seq1 runs_command)

lemma runs_actions:
  "runs 1 (bootstrap_action ex)"
  "runs 1 (peg0_action ex)"
  "runs 1 (peg1_action ex)"
  "runs 1 (peg2_action ex)"
  "runs 1 (peg3_action ex)"
  "runs 1 (peg_bootstrap_action ex)"
  "runs 1 (peg_peg_go_action ex)"
  "runs 1 (peg_action ex)"
  "runs 1 (grammar_action ex dir file)"
  "runs 1 (test_action ex)"
  unfolding bootstrap_action_def peg0_action_def peg1_action_def peg2_action_def peg3_action_def
    peg_bootstrap_action_def peg_peg_go_action_def peg_action_def grammar_action_def
    test_action_def
  by (intro runs_scoped runs_cmd_then runs_seq0 runs_deleteFilesWithSuffix runs0 order.refl
        | simp)+

lemmas target_defs = bootstrap_def peg0_def peg1_def peg2_def peg3_def peg_bootstrap_def
  peg_peg_go_def peg_def grammars_c_def grammars_calculator_def grammars_calculator_ast_def
  grammars_fexl_def grammars_java_def grammars_long_test_def test_def

lemma yields_return: "yields a (return a)"
  by (simp add: yields_def return_def)

lemma yields_bind: "(\<And>a. yields v (f a)) \<Longrightarrow> yields v (bind m f)"
  by (auto simp: yields_def bind_def split: result.splits)

lemma yields_seq: "yields v n \<Longrightarrow> yields v (seq m n)"
  unfolding seq_def by (rule yields_bind)

lemma yields_deferred: "yields v body \<Longrightarrow> yields v (deferred d body)"
  by (auto simp: yields_def deferred_def split: result.splits)

lemma yields_actions:
  "yields False (bootstrap_action ex)"
  "yields False (peg0_action ex)"
  "yields False (peg1_action ex)"
  "yields False (peg2_action ex)"
  "yields False (peg3_action ex)"
  "yields False (peg_bootstrap_action ex)"
  "yields False (peg_peg_go_action ex)"
  "yields False (peg_action ex)"
  "yields False (grammar_action ex dir file)"
  "yields False (test_action ex)"
  unfolding bootstrap_action_def peg0_action_def peg1_action_def peg2_action_def peg3_action_def
    peg_bootstrap_action_def peg_peg_go_action_def peg_action_def grammar_action_def
    test_action_def
  by (intro yields_bind yields_seq yields_deferred yields_return)+

lemma targets_shape:
  assumes "(T, out, deps, act) \<in> set (targets ex)"
  shows "T = guard (done' out deps) act \<and> runs 1 act \<and> yields False act"
proof -
  have "list_all (\<lambda>(T, out, deps, act).
          T = guard (done' out deps) act \<and> runs 1 act \<and> yields False act) (targets ex)"
    unfolding targets_def list.pred_inject prod.case
    by (intro conjI list.pred_inject(1) target_defs runs_actions yields_actions)
  with assms show ?thesis
    unfolding list_all_iff by blast
qed















text \<open>
  Claim C2. For every target function of the table: when it returns, its result is the
  result of its call of \<open>done\<close>. When that is \<open>true\<close> the function returns in the
  world that \<open>done\<close> left: the action did not run. When it is \<open>false\<close> the action ran
  from that world to its end and started at least one child process.
\<close>

theorem target_true_iff_action_skipped:
  assumes "(T, out, deps, act) \<in> set (targets ex)" and "T w = Ok b w'"
  shows "\<exists>w1. done' out deps w = Ok b w1 \<and> (b \<longrightarrow> w' = w1)
           \<and> (\<not> b \<longrightarrow> act w1 = Ok False w' \<and> (\<exists>new. procs w' = procs w1 @ new \<and> new \<noteq> []))"
proof -
  from targets_shape [OF assms(1)]
  have T: "T = guard (done' out deps) act" and r: "runs 1 act" and y: "yields False act"
    by simp_all
  from assms(2) obtain up w1 where d: "done' out deps w = Ok up w1"
    and rest: "(if up then return True else act) w1 = Ok b w'"
    unfolding T guard_def bind_def by (auto split: result.splits)
  show ?thesis
  proof (cases up)
    case True
    with rest d show ?thesis by (auto simp: return_def)
  next
    case False
    with rest have a: "act w1 = Ok b w'" by simp
    with y have "b = False" by (auto simp: yields_def)
    with a d False runs_OkD [OF r a] show ?thesis by auto
  qed
qed

lemma fold_print_fields [simp]:
  "cwd (fold (\<lambda>a. print (f a)) xs w) = cwd w"
  "fs (fold (\<lambda>a. print (f a)) xs w) = fs w"
  "clock (fold (\<lambda>a. print (f a)) xs w) = clock w"
  "processed (fold (\<lambda>a. print (f a)) xs w) = processed w"
  by (induction xs arbitrary: w) simp_all

lemma lookup_frame [simp]:
  "lookup (print x w) p = lookup w p"
  "lookup (fold (\<lambda>a. print (f a)) xs w) p = lookup w p"
  by (simp_all add: lookup_def split: option.split)

lemma ReadFile_frame [simp]:
  "ReadFile p (print x w) = ReadFile p w"
  "ReadFile p (fold (\<lambda>a. print (f a)) xs w) = ReadFile p w"
  by (simp_all add: ReadFile_def)



lemma command_returned:
  assumes "command ex name inputFile outputFile arg w = Ok u w1"
  shows "oc_ok (ex (child_of name inputFile arg w) (fs w) (clock w))
         \<and> procs w1 = procs w @ [(child_of name inputFile arg w, True)]"
  using assms
  by (auto simp: command_def bind_def read_input_def run_child_def spawn_def Let_def child_of_def
        WriteFile_def split: option.splits if_splits)


lemma stat_stale_boot:
  "Stat ''bootstrap/bootstrap'' stale_boot = Some 2"
  "Stat ''bootstrap/main.go'' stale_boot = Some 5"
  "Stat ''tree/peg.go'' stale_boot = Some 1"
  by (simp_all add: Stat_def lookup_def resolve_def stale_boot_def)

lemma done_stale_boot:
  "done' ''bootstrap/bootstrap'' [Str ''bootstrap/main.go'', Str ''tree/peg.go''] stale_boot
     = Ok False stale_boot"
  by (simp add: done'_def stat_stale_boot)

lemma bootstrap_stale_boot:
  "\<exists>w'. bootstrap ex_ok stale_boot = Ok False w' \<and> cwd w' = [''r''] \<and> 
     procs w' = [(Invocation [''r'', ''bootstrap''] ''go'' [''build''] None, True)]"
  unfolding bootstrap_def guard_def bind_def done_stale_boot
  by (simp add: bind_def bootstrap_action_def
        chdir_def Getwd_def Chdir_def is_dir_def resolve_def render_def deferred_def seq_def
        command_def read_input_def run_child_def spawn_def ex_ok_def return_def Let_def
        stale_boot_def print_def)


text \<open>
  \<open>bootstrap\<close> in the fresh checkout returns \<open>true\<close> without running anything; with a
  newer \<open>bootstrap/main.go\<close> it returns \<open>false\<close> after \<open>go build\<close>.
\<close>

theorem target_true_iff_action_skipped_witness:
  "(\<exists>w1. done' ''bootstrap/bootstrap'' [Str ''bootstrap/main.go'', Str ''tree/peg.go''] fresh
            = Ok True w1 \<and> bootstrap ex_ok fresh = Ok True w1)
   \<and> (\<exists>w1 w'. done' ''bootstrap/bootstrap'' [Str ''bootstrap/main.go'', Str ''tree/peg.go'']
                 stale_boot = Ok False w1
          \<and> bootstrap ex_ok stale_boot = Ok False w'
          \<and> bootstrap_action ex_ok w1 = Ok False w'
          \<and> (\<exists>new. procs w' = procs w1 @ new \<and> new \<noteq> []))"
proof -
  have m: "(bootstrap ex_ok, ''bootstrap/bootstrap'',
            [Str ''bootstrap/main.go'', Str ''tree/peg.go''], bootstrap_action ex_ok)
           \<in> set (targets ex_ok)"
    by (simp add: targets_def)
  obtain w' where s: "bootstrap ex_ok stale_boot = Ok False w'"
    using bootstrap_stale_boot by blast
  from target_true_iff_action_skipped [OF m bootstrap_fresh]
    target_true_iff_action_skipped [OF m s] s
  show ?thesis
    by (simp add: bootstrap_fresh)
qed


end
